theory Spec2Isabelle
  imports
    Complex_Main
    "HOL-Library.Char_ord"
    "HOL-Library.List_Lexorder"
    "HOL-Library.Product_Lexorder"
    "HOL-Library.Multiset"
begin

section \<open>Python values used by the exercises\<close>

text \<open>
  The two modules that carry the aggregation-and-ranking pipeline are
  \<^verbatim>\<open>coursework-1/main.py\<close> (class \<^verbatim>\<open>Counter\<close>) and \<^verbatim>\<open>lab4.py\<close> (class \<^verbatim>\<open>Purchase\<close>,
  \<^verbatim>\<open>parse_purchases\<close>, \<^verbatim>\<open>total_spend_by_user\<close>, \<^verbatim>\<open>top_users\<close>, \<^verbatim>\<open>main\<close>).

  \<^item> A Python \<^verbatim>\<open>str\<close> is a \<open>string\<close>: the list of the bytes of its UTF-8 encoding. The
    order of \<open>HOL-Library.List_Lexorder\<close> over \<open>HOL-Library.Char_ord\<close> is the
    lexicographic order on those bytes, which is the code point order Python compares
    strings by.
  \<^item> A Python \<^verbatim>\<open>int\<close> is an \<open>int\<close>. The functions over amounts are polymorphic in the
    type of the amount, as the Python is. They are read at \<open>real\<close> for the floats that
    are numbers, with exact sums (rounding is not modelled), and at \<open>pyfloat\<close>, the
    numbers together with the two infinities and NaN, where it matters what a
    comparison does with NaN.
  \<^item> A tuple is a pair; tuples compare lexicographically, as the pairs of
    \<open>HOL-Library.Product_Lexorder\<close> do.
  \<^item> A raised exception is the left injection of a sum. A method that mutates its
    object returns the outcome together with the object as the call leaves it, so
    that what a failed call did to the object can be read off.
\<close>

datatype py_error = ValueError string | IndexError string

subsection \<open>Floats\<close>

text \<open>
  The values of a \<^verbatim>\<open>float\<close>. Every comparison with NaN is false, a sum with NaN is
  NaN, and so is the sum of the two infinities; \<^verbatim>\<open>a <= b\<close> is \<^verbatim>\<open>a < b or a == b\<close>, and NaN
  is not equal to itself.
\<close>

datatype pyfloat = Finite real | PosInf | NegInf | NaN

instantiation pyfloat :: "{zero, plus, ord}"
begin

definition zero_pyfloat :: pyfloat where
  "zero_pyfloat = Finite 0"

fun plus_pyfloat :: "pyfloat \<Rightarrow> pyfloat \<Rightarrow> pyfloat" where
  "plus_pyfloat NaN y = NaN"
| "plus_pyfloat x NaN = NaN"
| "plus_pyfloat PosInf NegInf = NaN"
| "plus_pyfloat NegInf PosInf = NaN"
| "plus_pyfloat PosInf y = PosInf"
| "plus_pyfloat x PosInf = PosInf"
| "plus_pyfloat NegInf y = NegInf"
| "plus_pyfloat x NegInf = NegInf"
| "plus_pyfloat (Finite a) (Finite b) = Finite (a + b)"

fun less_pyfloat :: "pyfloat \<Rightarrow> pyfloat \<Rightarrow> bool" where
  "less_pyfloat NaN y = False"
| "less_pyfloat x NaN = False"
| "less_pyfloat (Finite a) (Finite b) = (a < b)"
| "less_pyfloat (Finite a) PosInf = True"
| "less_pyfloat NegInf (Finite b) = True"
| "less_pyfloat NegInf PosInf = True"
| "less_pyfloat x y = False"

definition less_eq_pyfloat :: "pyfloat \<Rightarrow> pyfloat \<Rightarrow> bool" where
  "less_eq_pyfloat x y = (x < y \<or> (x = y \<and> x \<noteq> NaN))"

instance ..

end

subsection \<open>Dictionaries\<close>

text \<open>
  A \<^verbatim>\<open>dict\<close> keeps its entries in insertion order and \<^verbatim>\<open>items()\<close> iterates in that
  order, so a dictionary is the list of its entries. \<^verbatim>\<open>d.get(k, default)\<close> reads,
  \<^verbatim>\<open>d[k] = v\<close> overwrites the entry in place when the key is present and appends a new
  entry otherwise. The keys of a dictionary are distinct.
\<close>

type_synonym ('k, 'v) dict = "('k \<times> 'v) list"

fun dict_get :: "('k, 'v) dict \<Rightarrow> 'k \<Rightarrow> 'v \<Rightarrow> 'v" where
  "dict_get [] k dflt = dflt"
| "dict_get ((k', v) # rest) k dflt = (if k' = k then v else dict_get rest k dflt)"

fun dict_set :: "('k, 'v) dict \<Rightarrow> 'k \<Rightarrow> 'v \<Rightarrow> ('k, 'v) dict" where
  "dict_set [] k v = [(k, v)]"
| "dict_set ((k', v') # rest) k v =
     (if k' = k then (k', v) # rest else (k', v') # dict_set rest k v)"

definition dict_wf :: "('k, 'v) dict \<Rightarrow> bool" where
  "dict_wf d = distinct (map fst d)"

subsection \<open>Builtins\<close>

text \<open>
  \<^verbatim>\<open>str.strip()\<close> removes the whitespace characters at both ends of a string. They
  are the code points \<^verbatim>\<open>U+0009..U+000D\<close>, \<^verbatim>\<open>U+001C..U+0020\<close>, \<^verbatim>\<open>U+0085\<close>, \<^verbatim>\<open>U+00A0\<close>,
  \<^verbatim>\<open>U+1680\<close>, \<^verbatim>\<open>U+2000..U+200A\<close>, \<^verbatim>\<open>U+2028\<close>, \<^verbatim>\<open>U+2029\<close>, \<^verbatim>\<open>U+202F\<close>, \<^verbatim>\<open>U+205F\<close> and
  \<^verbatim>\<open>U+3000\<close>, here by their UTF-8 encodings. No encoding is the beginning or the end
  of another one, and in a well-formed string an encoding at either end is that
  character, so stripping bytes strips characters.
\<close>

definition whitespace :: "string list" where
  "whitespace =
     [[CHR 0x09], [CHR 0x0A], [CHR 0x0B], [CHR 0x0C], [CHR 0x0D],
      [CHR 0x1C], [CHR 0x1D], [CHR 0x1E], [CHR 0x1F], [CHR 0x20],
      [CHR 0xC2, CHR 0x85], [CHR 0xC2, CHR 0xA0],
      [CHR 0xE1, CHR 0x9A, CHR 0x80],
      [CHR 0xE2, CHR 0x80, CHR 0x80], [CHR 0xE2, CHR 0x80, CHR 0x81],
      [CHR 0xE2, CHR 0x80, CHR 0x82], [CHR 0xE2, CHR 0x80, CHR 0x83],
      [CHR 0xE2, CHR 0x80, CHR 0x84], [CHR 0xE2, CHR 0x80, CHR 0x85],
      [CHR 0xE2, CHR 0x80, CHR 0x86], [CHR 0xE2, CHR 0x80, CHR 0x87],
      [CHR 0xE2, CHR 0x80, CHR 0x88], [CHR 0xE2, CHR 0x80, CHR 0x89],
      [CHR 0xE2, CHR 0x80, CHR 0x8A],
      [CHR 0xE2, CHR 0x80, CHR 0xA8], [CHR 0xE2, CHR 0x80, CHR 0xA9],
      [CHR 0xE2, CHR 0x80, CHR 0xAF], [CHR 0xE2, CHR 0x81, CHR 0x9F],
      [CHR 0xE3, CHR 0x80, CHR 0x80]]"

text \<open>\<^verbatim>\<open>s.startswith(w)\<close> for a non-empty \<open>w\<close>.\<close>

definition starts_with :: "string \<Rightarrow> string \<Rightarrow> bool" where
  "starts_with s w = (w \<noteq> [] \<and> take (length w) s = w)"

text \<open>The loop that steps over the whitespace at the start of a string.\<close>

function strip_leading :: "string list \<Rightarrow> string \<Rightarrow> string" where
  "strip_leading ws s =
     (case find (starts_with s) ws of
        None \<Rightarrow> s
      | Some w \<Rightarrow> strip_leading ws (drop (length w) s))"
  by pat_completeness auto
termination
proof (relation "measure (\<lambda>(ws, s). length s)")
  show "wf (measure (\<lambda>(ws, s). length s))" by simp
next
  fix ws :: "string list" and s w :: string
  assume "find (starts_with s) ws = Some w"
  then have "starts_with s w" by (auto simp: find_Some_iff)
  then have ne: "w \<noteq> []" and eq: "take (length w) s = w"
    by (simp_all add: starts_with_def)
  from eq have "length (take (length w) s) = length w"
    by (rule arg_cong)
  then have "length w \<le> length s" by simp
  moreover from ne have "0 < length w" by simp
  ultimately have "length s - length w < length s" by linarith
  then show "((ws, drop (length w) s), (ws, s)) \<in> measure (\<lambda>(ws, s). length s)"
    by simp
qed

definition lstrip :: "string \<Rightarrow> string" where
  "lstrip s = strip_leading whitespace s"

definition rstrip :: "string \<Rightarrow> string" where
  "rstrip s = rev (strip_leading (map rev whitespace) (rev s))"

definition strip :: "string \<Rightarrow> string" where
  "strip s = rstrip (lstrip s)"

declare strip_leading.simps [simp del]

text \<open>
  \<^verbatim>\<open>xs[:stop]\<close>: a negative \<^verbatim>\<open>stop\<close> counts from the end of the list (and is clamped
  at the start of it), a non-negative one is clamped at its length.
\<close>

definition slice_to :: "'a list \<Rightarrow> int \<Rightarrow> 'a list" where
  "slice_to xs stop =
     (if stop < 0 then take (nat (int (length xs) + stop)) xs else take (nat stop) xs)"

text \<open>
  \<^verbatim>\<open>max(iterable)\<close> raises on an empty iterable and otherwise walks it, replacing the
  running maximum only by a strictly greater item.
\<close>

fun py_max :: "'a::linorder list \<Rightarrow> py_error + 'a" where
  "py_max [] = Inl (ValueError ''max() iterable argument is empty'')"
| "py_max (x # xs) = Inr (fold (\<lambda>v m. if m < v then v else m) xs x)"

section \<open>The word counter (\<^verbatim>\<open>coursework-1/main.py\<close>)\<close>

record Counter =
  words :: "(string, int) dict"

definition Counter_init :: Counter where
  "Counter_init = \<lparr>words = []\<rparr>"

text \<open>\<^verbatim>\<open>Counter.add(item, n)\<close>: the check comes first, the assignment after it.\<close>

definition add :: "Counter \<Rightarrow> string \<Rightarrow> int \<Rightarrow> (py_error + unit) \<times> Counter" where
  "add self item n =
     (if n < 1 then (Inl (ValueError ''Repetition count is less than 1''), self)
      else (Inr (), self\<lparr>words := dict_set (words self) item (dict_get (words self) item 0 + n)\<rparr>))"

definition count :: "Counter \<Rightarrow> string \<Rightarrow> int" where
  "count self item = dict_get (words self) item 0"

text \<open>
  The loop of \<^verbatim>\<open>most_common\<close> that appends to \<^verbatim>\<open>highest_list\<close> every key whose value is
  the highest one.
\<close>

fun collect_highest :: "(string, int) dict \<Rightarrow> int \<Rightarrow> string list \<Rightarrow> string list" where
  "collect_highest [] highest highest_list = highest_list"
| "collect_highest ((key, value) # rest) highest highest_list =
     (if value = highest then collect_highest rest highest (highest_list @ [key])
      else collect_highest rest highest highest_list)"

definition most_common :: "Counter \<Rightarrow> py_error + (string \<times> int)" where
  "most_common self =
     (if words self = [] then Inl (ValueError ''Counter is empty'')
      else case py_max (map snd (words self)) of
        Inl e \<Rightarrow> Inl e
      | Inr highest \<Rightarrow>
          (case sort (collect_highest (words self) highest []) of
             [] \<Rightarrow> Inl (IndexError ''list index out of range'')
           | first # _ \<Rightarrow> Inr (first, highest)))"

text \<open>
  A run of \<^verbatim>\<open>add\<close> calls made one after the other, as the loop of \<^verbatim>\<open>main\<close> makes them:
  the first call that raises ends the run.
\<close>

fun add_all :: "Counter \<Rightarrow> (string \<times> int) list \<Rightarrow> (py_error + unit) \<times> Counter" where
  "add_all self [] = (Inr (), self)"
| "add_all self ((item, n) # calls) =
     (case add self item n of
        (Inl e, self') \<Rightarrow> (Inl e, self')
      | (Inr _, self') \<Rightarrow> add_all self' calls)"

text \<open>
  The same run by a caller that catches the exception of a failed call and goes on:
  every state a counter can be in is the result of such a run from the empty counter.
\<close>

fun add_each :: "Counter \<Rightarrow> (string \<times> int) list \<Rightarrow> Counter" where
  "add_each self [] = self"
| "add_each self ((item, n) # calls) = add_each (snd (add self item n)) calls"

section \<open>The purchase leaderboard (\<^verbatim>\<open>lab4.py\<close>)\<close>

record 'a Purchase =
  user :: string
  country :: string
  amount :: 'a

text \<open>\<^verbatim>\<open>Purchase.__init__\<close>: both checks come before any field is set.\<close>

definition Purchase_init ::
  "string \<Rightarrow> string \<Rightarrow> 'a::{zero, ord} \<Rightarrow> py_error + 'a Purchase" where
  "Purchase_init usr ctry amt =
     (if strip usr = [] then Inl (ValueError ''user must be non-empty'')
      else if amt < 0 then Inl (ValueError ''amount must be non-negative'')
      else Inr \<lparr>user = strip usr, country = strip ctry, amount = amt\<rparr>)"

definition is_in_country :: "'a Purchase \<Rightarrow> string \<Rightarrow> bool" where
  "is_in_country self ctry = (country self = ctry)"

definition apply_fee ::
  "'a::{zero, ord, plus} Purchase \<Rightarrow> 'a \<Rightarrow> (py_error + unit) \<times> 'a Purchase" where
  "apply_fee self fee =
     (if fee < 0 then (Inl (ValueError ''fee must be non-negative''), self)
      else (Inr (), self\<lparr>amount := amount self + fee\<rparr>))"

text \<open>
  \<^verbatim>\<open>parse_purchases\<close>. A line is given by its three comma-separated fields, the third
  one as the number \<^verbatim>\<open>float\<close> reads from it; splitting the line and reading the number
  are not modelled. The fields are stripped and handed to the constructor, whose
  exception ends the loop.
\<close>

fun parse_purchases ::
  "(string \<times> string \<times> 'a::{zero, ord}) list \<Rightarrow> py_error + 'a Purchase list" where
  "parse_purchases [] = Inr []"
| "parse_purchases ((usr, ctry, amt) # lines) =
     (case Purchase_init (strip usr) (strip ctry) amt of
        Inl e \<Rightarrow> Inl e
      | Inr p \<Rightarrow> (case parse_purchases lines of Inl e \<Rightarrow> Inl e | Inr ps \<Rightarrow> Inr (p # ps)))"

text \<open>The body of the loop of \<^verbatim>\<open>total_spend_by_user\<close>, and the loop.\<close>

definition spend_step ::
  "string \<Rightarrow> (string, 'a::{zero, plus}) dict \<Rightarrow> 'a Purchase \<Rightarrow> (string, 'a) dict" where
  "spend_step ctry totals purchase =
     (if is_in_country purchase ctry
      then dict_set totals (user purchase) (dict_get totals (user purchase) 0 + amount purchase)
      else totals)"

fun spend_loop ::
  "string \<Rightarrow> (string, 'a::{zero, plus}) dict \<Rightarrow> 'a Purchase list \<Rightarrow> (string, 'a) dict" where
  "spend_loop ctry totals [] = totals"
| "spend_loop ctry totals (purchase # purchases) =
     spend_loop ctry (spend_step ctry totals purchase) purchases"

definition total_spend_by_user ::
  "'a::{zero, plus} Purchase list \<Rightarrow> string \<Rightarrow> (string, 'a) dict" where
  "total_spend_by_user purchases ctry = spend_loop ctry [] purchases"

text \<open>
  \<^verbatim>\<open>top_users\<close>: \<^verbatim>\<open>sorted\<close> is a stable sort by the key \<^verbatim>\<open>(-item[1], item[0])\<close>, as
  \<open>sort_key\<close> is, and the slice \<^verbatim>\<open>[:limit]\<close> takes any integer. The function is typed
  for floats and runs as well on the integer counts of a \<^verbatim>\<open>Counter\<close>. Its values are
  numbers: a sort key with NaN in it is outside the model.
\<close>

definition top_users :: "(string, 'v::linordered_idom) dict \<Rightarrow> int \<Rightarrow> (string \<times> 'v) list" where
  "top_users totals limit = slice_to (sort_key (\<lambda>item. (- snd item, fst item)) totals) limit"

text \<open>
  \<^verbatim>\<open>main\<close> up to the list \<^verbatim>\<open>leaders\<close> it prints, for any lines, fee, country and limit
  in place of the fixed ones: parse, add the fee to the first purchase (an
  \<^verbatim>\<open>IndexError\<close> when there is none), aggregate, rank.
\<close>

definition leaders_of ::
  "(string \<times> string \<times> 'a::linordered_idom) list \<Rightarrow> 'a \<Rightarrow> string \<Rightarrow> int
     \<Rightarrow> py_error + (string \<times> 'a) list" where
  "leaders_of raw_lines fee ctry limit =
     (case parse_purchases raw_lines of
        Inl e \<Rightarrow> Inl e
      | Inr purchases \<Rightarrow>
          (case purchases of
             [] \<Rightarrow> Inl (IndexError ''list index out of range'')
           | p # ps \<Rightarrow>
               (case apply_fee p fee of
                  (Inl e, _) \<Rightarrow> Inl e
                | (Inr _, p') \<Rightarrow> Inr (top_users (total_spend_by_user (p' # ps) ctry) limit))))"

definition raw_lines :: "(string \<times> string \<times> real) list" where
  "raw_lines =
     [(''alice'', ''UK'', 10.0), (''bob'', ''UK'', 3.5), (''alice'', ''UK'', 2.0),
      (''carla'', ''FR'', 100.0), (''bob'', ''UK'', 5.0)]"

definition main_leaders :: "py_error + (string \<times> real) list" where
  "main_leaders = leaders_of raw_lines 0.25 ''UK'' 3"

text \<open>
  \<^verbatim>\<open>main\<close> without the fee: the purchases are parsed and, when that raised nothing,
  aggregated for the country.
\<close>

definition totals_of_lines ::
  "(string \<times> string \<times> 'a::{zero, ord, plus}) list \<Rightarrow> string \<Rightarrow> py_error + (string, 'a) dict" where
  "totals_of_lines lines ctry =
     (case parse_purchases lines of
        Inl e \<Rightarrow> Inl e
      | Inr purchases \<Rightarrow> Inr (total_spend_by_user purchases ctry))"

text \<open>
  Calls \<^verbatim>\<open>purchases[i].apply_fee(fee)\<close> made one after the other on the purchases of a
  list, as \<^verbatim>\<open>main\<close> makes one on \<^verbatim>\<open>purchases[0]\<close>, by a caller that catches what a call
  raises and goes on; a position outside the list raises before any purchase is
  touched.
\<close>

fun apply_fees_at ::
  "'a::{zero, ord, plus} Purchase list \<Rightarrow> (nat \<times> 'a) list \<Rightarrow> 'a Purchase list" where
  "apply_fees_at purchases [] = purchases"
| "apply_fees_at purchases ((i, fee) # fees) =
     apply_fees_at
       (if i < length purchases
        then purchases[i := snd (apply_fee (purchases ! i) fee)]
        else purchases)
       fees"

text \<open>
  The order the ranking is sorted by: an entry stands before another one when its
  value is greater, or the values are equal and its key is not greater.
\<close>

definition ranks_before :: "string \<times> 'v::linordered_idom \<Rightarrow> string \<times> 'v \<Rightarrow> bool" where
  "ranks_before a b = (snd b < snd a \<or> (snd a = snd b \<and> fst a \<le> fst b))"

text \<open>
  The same order on entries of distinct keys, where equal values leave the smaller key
  strictly first.
\<close>

definition ranks_strictly_before :: "string \<times> 'v::linordered_idom \<Rightarrow> string \<times> 'v \<Rightarrow> bool" where
  "ranks_strictly_before a b = (snd b < snd a \<or> (snd a = snd b \<and> fst a < fst b))"

section \<open>Stripping\<close>

text \<open>The equations that evaluate \<open>strip\<close> on a given string.\<close>

lemmas strip_eval =
  strip_def lstrip_def rstrip_def strip_leading.simps starts_with_def whitespace_def

lemma starts_with_length:
  assumes "starts_with s w"
  shows "0 < length w \<and> length w \<le> length s"
proof -
  from assms have ne: "w \<noteq> []" and eq: "take (length w) s = w"
    by (simp_all add: starts_with_def)
  from eq have "length (take (length w) s) = length w"
    by (rule arg_cong)
  then have "length w \<le> length s" by simp
  with ne show ?thesis by simp
qed

text \<open>
  Stripping stops where no whitespace is left at the start, drops a part of the
  string only, and so changes nothing in a stripped string.
\<close>

lemma strip_leading_fixed:
  "find (starts_with s) ws = None \<Longrightarrow> strip_leading ws s = s"
  by (simp add: strip_leading.simps)

lemma strip_leading_done:
  "find (starts_with (strip_leading ws s)) ws = None"
proof (induction ws s rule: strip_leading.induct)
  case (1 ws s)
  show ?case
  proof (cases "find (starts_with s) ws")
    case None
    then show ?thesis by (simp add: strip_leading_fixed)
  next
    case (Some w)
    with "1.IH" [OF Some] show ?thesis
      by (simp add: strip_leading.simps [of ws s])
  qed
qed

lemma strip_leading_suffix:
  "\<exists>dropped. s = dropped @ strip_leading ws s"
proof (induction ws s rule: strip_leading.induct)
  case (1 ws s)
  show ?case
  proof (cases "find (starts_with s) ws")
    case None
    then show ?thesis by (simp add: strip_leading_fixed)
  next
    case (Some w)
    from "1.IH" [OF Some] obtain dropped where
      "drop (length w) s = dropped @ strip_leading ws (drop (length w) s)" by blast
    then have "s = (take (length w) s @ dropped) @ strip_leading ws (drop (length w) s)"
      by (metis append_assoc append_take_drop_id)
    with Some show ?thesis
      by (simp only: strip_leading.simps [of ws s] option.case) blast
  qed
qed

lemma starts_with_append:
  "starts_with u w \<Longrightarrow> starts_with (u @ v) w"
proof -
  assume h: "starts_with u w"
  then have "length w \<le> length u"
    using starts_with_length by blast
  with h show ?thesis by (simp add: starts_with_def)
qed

lemma strip_idem: "strip (strip s) = strip s"
proof -
  let ?t = "lstrip s"
  let ?u = "rstrip ?t"
  have u: "strip s = ?u" by (simp add: strip_def)
  have "find (starts_with (rev ?u)) (map rev whitespace) = None"
    unfolding rstrip_def rev_rev_ident by (rule strip_leading_done)
  then have right: "rstrip ?u = ?u"
    unfolding rstrip_def [of ?u] by (simp only: strip_leading_fixed rev_rev_ident)
  obtain dropped where "rev ?t = dropped @ rev ?u"
    unfolding rstrip_def rev_rev_ident using strip_leading_suffix by blast
  then have "rev (rev ?t) = rev (dropped @ rev ?u)" by (rule arg_cong)
  then have t: "?t = ?u @ rev dropped" by (simp only: rev_rev_ident rev_append)
  have t_done: "find (starts_with ?t) whitespace = None"
    unfolding lstrip_def by (rule strip_leading_done)
  have "\<not> starts_with ?u w" if "w \<in> set whitespace" for w
  proof
    assume "starts_with ?u w"
    then have "starts_with (?u @ rev dropped) w" by (rule starts_with_append)
    then have "starts_with ?t w" using t by simp
    with that t_done show False by (auto simp: find_None_iff)
  qed
  then have "find (starts_with ?u) whitespace = None"
    by (auto simp: find_None_iff)
  then have left: "lstrip ?u = ?u"
    unfolding lstrip_def [of ?u] by (rule strip_leading_fixed)
  show ?thesis
    unfolding u unfolding strip_def [of ?u] left right ..
qed

section \<open>Dictionary lemmas\<close>

lemma dict_get_set:
  "dict_get (dict_set d k v) k' dflt = (if k' = k then v else dict_get d k' dflt)"
  by (induction d) auto

lemma map_fst_dict_set:
  "map fst (dict_set d k v) = (if k \<in> set (map fst d) then map fst d else map fst d @ [k])"
  by (induction d) force+

lemma dict_wf_set: "dict_wf d \<Longrightarrow> dict_wf (dict_set d k v)"
  unfolding dict_wf_def map_fst_dict_set by simp

section \<open>The counter\<close>

lemma count_add:
  "count (snd (add self item n)) key =
     (if 1 \<le> n \<and> key = item then count self key + n else count self key)"
  by (simp add: add_def count_def dict_get_set)

lemma add_succeeds: "1 \<le> n \<Longrightarrow> fst (add self item n) = Inr ()"
  by (simp add: add_def)

lemma count_init: "count Counter_init key = 0"
  by (simp add: count_def Counter_init_def)

text \<open>
  A run of valid calls from any counter goes through, and adds to the count of every
  key the amounts of the calls made for it.
\<close>

lemma add_all_counts:
  "\<forall>(item, n) \<in> set calls. 1 \<le> n \<Longrightarrow>
   \<exists>self'. add_all self calls = (Inr (), self') \<and>
     (\<forall>key. count self' key =
        count self key + sum_list (map snd (filter (\<lambda>call. fst call = key) calls)))"
proof (induction calls arbitrary: self)
  case Nil
  then show ?case by simp
next
  case (Cons call calls)
  obtain item n where call: "call = (item, n)" by (cases call)
  from Cons.prems call have n: "1 \<le> n" and rest: "\<forall>(item, n) \<in> set calls. 1 \<le> n"
    by auto
  obtain mid where mid: "add self item n = (Inr (), mid)"
    using add_succeeds [OF n, of self item] by (cases "add self item n") auto
  from Cons.IH [OF rest, of mid] obtain self' where
    run: "add_all mid calls = (Inr (), self')" and
    cnt: "\<forall>key. count self' key =
            count mid key + sum_list (map snd (filter (\<lambda>call. fst call = key) calls))"
    by blast
  have "count mid key = (if key = item then count self key + n else count self key)" for key
    using count_add [of self item n key] mid n by simp
  with cnt have "\<forall>key. count self' key =
      count self key + sum_list (map snd (filter (\<lambda>call. fst call = key) (call # calls)))"
    by (simp add: call)
  moreover have "add_all self (call # calls) = (Inr (), self')"
    by (simp add: call mid run)
  ultimately show ?case by blast
qed

text \<open>
  C2. Whatever calls \<^verbatim>\<open>add(item, n)\<close> with \<open>n \<ge> 1\<close> are made on a fresh counter, none
  of them raises, and afterwards \<^verbatim>\<open>count(key)\<close> is the sum of the amounts added under
  \<open>key\<close>; in particular it is 0 for a key that was never added.
\<close>

theorem count_is_sum_of_added:
  assumes "\<forall>(item, n) \<in> set calls. 1 \<le> n"
  shows "\<exists>self. add_all Counter_init calls = (Inr (), self)
     \<and> (\<forall>key. count self key = sum_list (map snd (filter (\<lambda>call. fst call = key) calls)))
     \<and> (\<forall>key. key \<notin> fst ` set calls \<longrightarrow> count self key = 0)"
proof -
  from add_all_counts [OF assms, of Counter_init] obtain self where
    run: "add_all Counter_init calls = (Inr (), self)" and
    cnt: "\<forall>key. count self key = sum_list (map snd (filter (\<lambda>call. fst call = key) calls))"
    by (auto simp: count_init)
  have "filter (\<lambda>call. fst call = key) calls = []" if "key \<notin> fst ` set calls" for key
    using that by (auto simp: filter_empty_conv)
  with cnt have "\<forall>key. key \<notin> fst ` set calls \<longrightarrow> count self key = 0"
    by simp
  with run cnt show ?thesis by blast
qed

text \<open>The calls \<^verbatim>\<open>add("the")\<close>, \<^verbatim>\<open>add("cat", 2)\<close>, \<^verbatim>\<open>add("the", 3)\<close>.\<close>

theorem count_is_sum_of_added_witness:
  "\<exists>self. add_all Counter_init [(''the'', 1), (''cat'', 2), (''the'', 3)] = (Inr (), self)
      \<and> count self ''the'' = 4 \<and> count self ''cat'' = 2 \<and> count self ''hat'' = 0"
proof -
  have "\<forall>(item, n) \<in> set [(''the'', 1), (''cat'', 2), (''the'', 3::int)]. 1 \<le> n"
    by simp
  from count_is_sum_of_added [OF this] obtain self where
    "add_all Counter_init [(''the'', 1), (''cat'', 2), (''the'', 3)] = (Inr (), self)"
    "\<forall>key. count self key =
       sum_list (map snd (filter (\<lambda>call. fst call = key)
         [(''the'', 1), (''cat'', 2), (''the'', 3::int)]))"
    by blast
  then have "add_all Counter_init [(''the'', 1), (''cat'', 2), (''the'', 3)] = (Inr (), self)
        \<and> count self ''the'' = 4 \<and> count self ''cat'' = 2 \<and> count self ''hat'' = 0"
    by simp
  then show ?thesis by blast
qed

text \<open>
  C5. \<^verbatim>\<open>add(item, n)\<close> with \<open>n < 1\<close> raises \<^verbatim>\<open>ValueError\<close> and leaves the counter, hence
  its dictionary, exactly as it was.
\<close>

theorem add_below_one_fails_unchanged:
  assumes "n < 1"
  shows "add self item n = (Inl (ValueError ''Repetition count is less than 1''), self)"
  using assms by (simp add: add_def)

theorem add_below_one_fails_unchanged_witness:
  "(0::int) < 1 \<and>
   add \<lparr>words = [(''cat'', 3)]\<rparr> ''cat'' 0
     = (Inl (ValueError ''Repetition count is less than 1''), \<lparr>words = [(''cat'', 3)]\<rparr>)"
  using add_below_one_fails_unchanged [of 0 "\<lparr>words = [(''cat'', 3)]\<rparr>" "''cat''"] by simp

section \<open>Fees and the amount zero\<close>

text \<open>
  C8. On the float side, \<^verbatim>\<open>apply_fee(0)\<close> succeeds and leaves the purchase, hence its
  amount, unchanged; on the integer side, \<^verbatim>\<open>add(item, 0)\<close> raises and leaves the counter
  unchanged.
\<close>

theorem zero_amount_float_identity_int_failure:
  fixes p :: "real Purchase"
  shows "apply_fee p 0 = (Inr (), p)
   \<and> fst (add self item 0) = Inl (ValueError ''Repetition count is less than 1'')
   \<and> snd (add self item 0) = self"
  by (simp add: apply_fee_def add_def)

section \<open>The example of \<^verbatim>\<open>main\<close>\<close>

text \<open>
  C9. The five lines of \<^verbatim>\<open>main\<close>, with the fee 0.25 added to alice's first purchase,
  aggregated for \<^verbatim>\<open>"UK"\<close> and ranked with limit 3, give alice with 12.25 and then bob
  with 8.5; carla, who bought in \<^verbatim>\<open>"FR"\<close>, is not in the list.
\<close>

theorem main_leaders_example:
  "main_leaders = Inr [(''alice'', 12.25), (''bob'', 8.5)]"
  by (simp add: main_leaders_def leaders_of_def raw_lines_def Purchase_init_def strip_def
      strip_eval apply_fee_def total_spend_by_user_def spend_step_def is_in_country_def
      top_users_def slice_to_def)

section \<open>The ranking\<close>

lemma sort_key_le_ranks_before:
  "(- snd a, fst a) \<le> (- snd b, fst b) \<Longrightarrow> ranks_before a b"
  by (auto simp: ranks_before_def)

lemma sorted_wrt_ranking:
  "sorted_wrt ranks_before (sort_key (\<lambda>item. (- snd item, fst item)) totals)"
proof -
  let ?f = "\<lambda>item :: string \<times> 'a. (- snd item, fst item)"
  have "sorted (map ?f (sort_key ?f totals))"
    by (rule sorted_sort_key)
  then have "sorted_wrt (\<lambda>a b. ?f a \<le> ?f b) (sort_key ?f totals)"
    by (simp only: sorted_map)
  then show ?thesis
    by (rule sorted_wrt_mono_rel [rotated]) (rule sort_key_le_ranks_before)
qed

lemma sorted_wrt_strict:
  "sorted_wrt ranks_before xs \<Longrightarrow> distinct (map fst xs) \<Longrightarrow> sorted_wrt ranks_strictly_before xs"
proof (induction xs)
  case Nil
  then show ?case by simp
next
  case (Cons x xs)
  have "ranks_strictly_before x y" if "y \<in> set xs" for y
  proof -
    from that Cons.prems have "ranks_before x y" and "fst x \<noteq> fst y"
      by auto
    then show ?thesis
      by (auto simp: ranks_before_def ranks_strictly_before_def)
  qed
  with Cons show ?case by simp
qed

lemma dict_wf_ranking:
  fixes totals :: "(string, 'v::linordered_idom) dict"
  shows "dict_wf totals \<Longrightarrow> dict_wf (sort_key (\<lambda>item. (- snd item, fst item)) totals)"
proof -
  let ?f = "\<lambda>item :: string \<times> 'v. (- snd item, fst item)"
  have "mset (map fst (sort_key ?f totals)) = mset (map fst totals)"
    by simp
  then show "dict_wf totals \<Longrightarrow> dict_wf (sort_key ?f totals)"
    unfolding dict_wf_def by (metis mset_eq_imp_distinct_iff)
qed

lemma top_users_nonneg:
  "0 \<le> limit \<Longrightarrow>
   top_users totals limit = take (nat limit) (sort_key (\<lambda>item. (- snd item, fst item)) totals)"
  by (simp add: top_users_def slice_to_def)

lemma top_users_neg:
  "limit < 0 \<Longrightarrow>
   top_users totals limit =
     take (length totals - nat (- limit)) (sort_key (\<lambda>item. (- snd item, fst item)) totals)"
proof -
  assume "limit < 0"
  then have "nat (int (length totals) + limit) = length totals - nat (- limit)"
    by linarith
  with \<open>limit < 0\<close> show ?thesis
    by (simp add: top_users_def slice_to_def)
qed

text \<open>
  C1. For every dictionary and every count \<open>k\<close>, passed as the limit, \<^verbatim>\<open>top_users\<close>
  returns \<open>min k n\<close> of the \<open>n\<close> entries, and they are the head of an arrangement
  of all the entries that is sorted by descending value and, among equal values, by
  ascending key: every entry stands before every later one in that order, so a tie of
  three or more keys is in ascending order throughout. With the distinct keys of a
  dictionary the order is strict. The limit 0 gives the empty list, and a limit of at
  least \<open>n\<close> gives all the entries.
\<close>

theorem top_users_ranking:
  fixes k :: nat
  shows "length (top_users totals (int k)) = min k (length totals)
     \<and> (\<exists>rest. mset (top_users totals (int k) @ rest) = mset totals
           \<and> sorted_wrt ranks_before (top_users totals (int k) @ rest)
           \<and> (dict_wf totals \<longrightarrow>
                sorted_wrt ranks_strictly_before (top_users totals (int k) @ rest)))
     \<and> top_users totals 0 = []
     \<and> (length totals \<le> k \<longrightarrow> mset (top_users totals (int k)) = mset totals)"
proof -
  let ?ranking = "sort_key (\<lambda>item :: string \<times> 'a. (- snd item, fst item)) totals"
  let ?rest = "drop k ?ranking"
  have top: "top_users totals (int k) = take k ?ranking"
    by (simp add: top_users_nonneg)
  have whole: "top_users totals (int k) @ ?rest = ?ranking"
    by (simp add: top)
  have len: "length (top_users totals (int k)) = min k (length totals)"
    by (simp add: top min.commute)
  have perm: "mset (top_users totals (int k) @ ?rest) = mset totals"
    by (simp only: whole) simp
  have srt: "sorted_wrt ranks_before (top_users totals (int k) @ ?rest)"
    by (simp only: whole) (rule sorted_wrt_ranking)
  have strict: "sorted_wrt ranks_strictly_before (top_users totals (int k) @ ?rest)"
    if "dict_wf totals"
  proof -
    from that have "distinct (map fst ?ranking)"
      using dict_wf_ranking [of totals] by (simp add: dict_wf_def)
    with sorted_wrt_ranking [of totals] have "sorted_wrt ranks_strictly_before ?ranking"
      by (rule sorted_wrt_strict)
    then show ?thesis by (simp only: whole)
  qed
  have zero: "top_users totals 0 = []"
    by (simp add: top_users_def slice_to_def)
  have all: "mset (top_users totals (int k)) = mset totals" if "length totals \<le> k"
    using that by (simp add: top)
  from len perm srt strict zero all show ?thesis by blast
qed

text \<open>A three-way tie at the value 3, with limits 2 and 5.\<close>

theorem top_users_ranking_witness:
  "length (top_users [(''the'', 3::int), (''cat'', 3), (''a'', 1), (''bat'', 3)] 2) = 2
   \<and> top_users [(''the'', 3::int), (''cat'', 3), (''a'', 1), (''bat'', 3)] 2
       = [(''bat'', 3), (''cat'', 3)]
   \<and> sorted_wrt ranks_strictly_before
       (top_users [(''the'', 3::int), (''cat'', 3), (''a'', 1), (''bat'', 3)] 5)
   \<and> top_users [(''the'', 3::int), (''cat'', 3), (''a'', 1), (''bat'', 3)] 5
       = [(''bat'', 3), (''cat'', 3), (''the'', 3), (''a'', 1)]
   \<and> mset (top_users [(''the'', 3::int), (''cat'', 3), (''a'', 1), (''bat'', 3)] 5)
       = mset [(''the'', 3::int), (''cat'', 3), (''a'', 1), (''bat'', 3)]"
  using top_users_ranking [of "[(''the'', 3::int), (''cat'', 3), (''a'', 1), (''bat'', 3)]" 2]
    top_users_ranking [of "[(''the'', 3::int), (''cat'', 3), (''a'', 1), (''bat'', 3)]" 5]
  by (simp add: top_users_def slice_to_def dict_wf_def ranks_strictly_before_def)

text \<open>
  C10, as stated: a negative limit on a non-empty dictionary never gives the empty list.
  With one entry and the limit \<open>-1\<close> the slice drops the only entry.
\<close>

theorem top_users_negative_limit_counterexample:
  "[(''alice'', 12.25::real)] \<noteq> [] \<and> top_users [(''alice'', 12.25::real)] (- 1) = []"
  by (simp add: top_users_def slice_to_def)

text \<open>
  C10, amended. For a negative limit \<^verbatim>\<open>top_users\<close> returns the ranking of all the
  entries without its last \<open>|limit|\<close> ones (without all of them when there are fewer):
  the result has \<open>n - |limit|\<close> entries, is empty exactly when \<open>n \<le> |limit|\<close>, and its
  length is never \<open>min limit n\<close>.
\<close>

theorem top_users_negative_limit:
  assumes "limit < 0"
  shows "(\<exists>dropped. top_users totals (int (length totals)) = top_users totals limit @ dropped
            \<and> length dropped = min (nat (- limit)) (length totals))
     \<and> length (top_users totals limit) = length totals - nat (- limit)
     \<and> (top_users totals limit = [] \<longleftrightarrow> length totals \<le> nat (- limit))
     \<and> int (length (top_users totals limit)) \<noteq> min limit (int (length totals))"
proof -
  let ?ranking = "sort_key (\<lambda>item :: string \<times> 'a. (- snd item, fst item)) totals"
  let ?n = "length totals - nat (- limit)"
  have neg: "top_users totals limit = take ?n ?ranking"
    using assms by (rule top_users_neg)
  have full: "top_users totals (int (length totals)) = ?ranking"
    by (simp add: top_users_nonneg)
  have len: "length (top_users totals limit) = ?n"
    by (simp add: neg)
  have "top_users totals (int (length totals)) = top_users totals limit @ drop ?n ?ranking"
    by (simp add: neg full)
  moreover have "length (drop ?n ?ranking) = min (nat (- limit)) (length totals)"
    by simp
  ultimately have split: "\<exists>dropped. top_users totals (int (length totals)) = top_users totals limit @ dropped
            \<and> length dropped = min (nat (- limit)) (length totals)"
    by blast
  have empty: "top_users totals limit = [] \<longleftrightarrow> length totals \<le> nat (- limit)"
    using len by (metis length_0_conv diff_is_0_eq)
  have "int (length (top_users totals limit)) \<noteq> min limit (int (length totals))"
    using assms by simp
  with split len empty show ?thesis by blast
qed

text \<open>The limit \<open>-1\<close> drops carla, the lowest ranked of three.\<close>

theorem top_users_negative_limit_witness:
  "top_users [(''bob'', 8.5::real), (''alice'', 12.25), (''carla'', 1)] (- 1)
     = [(''alice'', 12.25), (''bob'', 8.5)]
   \<and> length (top_users [(''bob'', 8.5::real), (''alice'', 12.25), (''carla'', 1)] (- 1)) = 2"
  using top_users_negative_limit [of "- 1" "[(''bob'', 8.5::real), (''alice'', 12.25), (''carla'', 1)]"]
  by (simp add: top_users_def slice_to_def)

section \<open>The most common word\<close>

lemma py_max_Max: "xs \<noteq> [] \<Longrightarrow> py_max xs = Inr (Max (set xs))"
proof (cases xs)
  case Nil
  then show "xs \<noteq> [] \<Longrightarrow> ?thesis" by simp
next
  case (Cons x rest)
  have "(\<lambda>v m :: 'a. if m < v then v else m) = max"
    by (auto simp: max_def fun_eq_iff)
  then have "fold (\<lambda>v m. if m < v then v else m) rest x = Max (set (x # rest))"
    by (simp only: Max.set_eq_fold)
  with Cons show ?thesis by simp
qed

lemma collect_highest_filter:
  "collect_highest d highest acc = acc @ map fst (filter (\<lambda>entry. snd entry = highest) d)"
  by (induction d highest acc rule: collect_highest.induct) auto

lemma sort_Cons_least:
  assumes "sort xs = x # rest"
  shows "x \<in> set xs \<and> (\<forall>y \<in> set xs. x \<le> y)"
proof -
  have "set (x # rest) = set xs"
    using assms set_sort [of "\<lambda>x. x" xs] by simp
  moreover have "sorted (x # rest)"
    using assms sorted_sort [of xs] by simp
  ultimately show ?thesis by auto
qed

lemma ranking_Cons_least:
  assumes "sort_key f xs = x # rest"
  shows "x \<in> set xs \<and> (\<forall>y \<in> set xs. f x \<le> f y)"
proof -
  have "set (x # rest) = set xs"
    using assms set_sort [of f xs] by simp
  moreover have "sorted (map f (x # rest))"
    using assms sorted_sort_key [of f xs] by simp
  ultimately show ?thesis by auto
qed

lemma most_common_nonempty:
  assumes ne: "words self \<noteq> []"
  shows "\<exists>entry. top_users (words self) 1 = [entry] \<and> most_common self = Inr entry"
proof -
  let ?items = "words self"
  let ?f = "\<lambda>item :: string \<times> int. (- snd item, fst item)"
  let ?h = "Max (snd ` set ?items)"
  let ?keys = "collect_highest ?items ?h []"
  from ne have "sort_key ?f ?items \<noteq> []"
    by (metis length_sort length_0_conv)
  then obtain y rest where ranking: "sort_key ?f ?items = y # rest"
    by (cases "sort_key ?f ?items") auto
  from ranking_Cons_least [OF ranking]
  have y_in: "y \<in> set ?items" and y_least: "\<forall>z \<in> set ?items. ?f y \<le> ?f z"
    by blast+
  have top: "top_users ?items 1 = [y]"
    by (simp add: top_users_def slice_to_def ranking)
  have "?h \<in> snd ` set ?items"
    using ne by (intro Max_in) auto
  then obtain z where z_in: "z \<in> set ?items" and z_h: "snd z = ?h"
    by auto
  have "snd y \<le> ?h"
    using y_in by (intro Max_ge) auto
  moreover have "?h \<le> snd y"
    using y_least z_in z_h by (auto simp: less_eq_prod_def)
  ultimately have y_h: "snd y = ?h" by simp
  with y_in have y_key: "fst y \<in> set ?keys"
    by (force simp: collect_highest_filter)
  then have "sort ?keys \<noteq> []"
    by (metis length_sort length_0_conv empty_iff empty_set)
  then obtain k0 ks where sorted_keys: "sort ?keys = k0 # ks"
    by (cases "sort ?keys") auto
  from sort_Cons_least [OF sorted_keys]
  have k0_in: "k0 \<in> set ?keys" and k0_least: "\<forall>k \<in> set ?keys. k0 \<le> k"
    by blast+
  from k0_in obtain w where w_in: "w \<in> set ?items" and w_h: "snd w = ?h" and w_k: "fst w = k0"
    by (auto simp: collect_highest_filter)
  have "fst y \<le> k0"
    using y_least w_in w_h w_k y_h by (auto simp: less_eq_prod_def)
  moreover have "k0 \<le> fst y"
    using k0_least y_key by blast
  ultimately have "k0 = fst y" by simp
  with y_h have entry: "(k0, ?h) = y"
    by (simp add: prod_eq_iff)
  have "py_max (map snd ?items) = Inr ?h"
    using ne by (simp add: py_max_Max)
  then have "most_common self = Inr (k0, ?h)"
    using ne sorted_keys by (simp add: most_common_def)
  with entry top show ?thesis by simp
qed

text \<open>
  C3. \<^verbatim>\<open>most_common\<close> raises the \<^verbatim>\<open>ValueError\<close> of the empty counter exactly when the
  counter has no entry, and raises nothing else; on a counter with entries it returns
  the one entry that \<^verbatim>\<open>top_users\<close> returns for the limit 1.
\<close>

theorem most_common_is_top_user:
  "(most_common self = Inl (ValueError ''Counter is empty'') \<longleftrightarrow> words self = [])
   \<and> (isl (most_common self) \<longleftrightarrow> words self = [])
   \<and> (words self \<noteq> [] \<longrightarrow>
        (\<exists>entry. top_users (words self) 1 = [entry] \<and> most_common self = Inr entry))"
proof (cases "words self = []")
  case True
  then show ?thesis by (simp add: most_common_def)
next
  case False
  from most_common_nonempty [OF False] obtain entry where
    "top_users (words self) 1 = [entry]" "most_common self = Inr entry"
    by blast
  with False show ?thesis by auto
qed

text \<open>The tie of the docstring, \<^verbatim>\<open>the\<close> and \<^verbatim>\<open>cat\<close> at 3, and the empty counter.\<close>

theorem most_common_is_top_user_witness:
  "most_common \<lparr>words = [(''the'', 3), (''cat'', 3), (''hat'', 1)]\<rparr> = Inr (''cat'', 3)
   \<and> top_users [(''the'', 3::int), (''cat'', 3), (''hat'', 1)] 1 = [(''cat'', 3)]
   \<and> most_common Counter_init = Inl (ValueError ''Counter is empty'')"
  using most_common_is_top_user [of "\<lparr>words = [(''the'', 3), (''cat'', 3), (''hat'', 1)]\<rparr>"]
    most_common_is_top_user [of Counter_init]
  by (simp add: top_users_def slice_to_def Counter_init_def)

section \<open>Validation of purchases\<close>

lemma Purchase_init_fails_iff:
  "isl (Purchase_init (strip usr) (strip ctry) amt) \<longleftrightarrow> strip usr = [] \<or> amt < 0"
  by (simp add: Purchase_init_def strip_idem)

lemma Purchase_init_error:
  "Purchase_init usr ctry amt = Inl e \<Longrightarrow>
   e = ValueError ''user must be non-empty'' \<or> e = ValueError ''amount must be non-negative''"
  by (auto simp: Purchase_init_def split: if_splits)

lemma Purchase_init_fields:
  fixes amt :: real
  shows "Purchase_init usr ctry amt = Inr p \<Longrightarrow>
   user p = strip usr \<and> country p = strip ctry \<and> amount p = amt \<and> 0 \<le> amt \<and> strip usr \<noteq> []"
  by (auto simp: Purchase_init_def split: if_splits)

lemma parse_purchases_fails_iff:
  "isl (parse_purchases lines) \<longleftrightarrow> (\<exists>(usr, ctry, amt) \<in> set lines. strip usr = [] \<or> amt < 0)"
proof (induction lines)
  case Nil
  then show ?case by simp
next
  case (Cons line lines)
  obtain usr ctry amt where line: "line = (usr, ctry, amt)" by (cases line)
  show ?case
  proof (cases "Purchase_init (strip usr) (strip ctry) amt")
    case (Inl e)
    then have "strip usr = [] \<or> amt < 0"
      using Purchase_init_fails_iff [of usr ctry amt] by simp
    with Inl line show ?thesis by auto
  next
    case (Inr p)
    then have "\<not> (strip usr = [] \<or> amt < 0)"
      using Purchase_init_fails_iff [of usr ctry amt] by simp
    with Inr line Cons.IH show ?thesis
      by (auto split: sum.splits)
  qed
qed

lemma parse_purchases_error:
  "parse_purchases lines = Inl e \<Longrightarrow>
   e = ValueError ''user must be non-empty'' \<or> e = ValueError ''amount must be non-negative''"
proof (induction lines)
  case Nil
  then show ?case by simp
next
  case (Cons line lines)
  obtain usr ctry amt where line: "line = (usr, ctry, amt)" by (cases line)
  from Cons line show ?case
    by (auto split: sum.splits dest: Purchase_init_error)
qed

lemma parse_purchases_nonneg:
  fixes purchases :: "real Purchase list"
  shows "parse_purchases lines = Inr purchases \<Longrightarrow> \<forall>p \<in> set purchases. 0 \<le> amount p"
proof (induction lines arbitrary: purchases)
  case Nil
  then show ?case by simp
next
  case (Cons line lines)
  obtain usr ctry amt where line: "line = (usr, ctry, amt)" by (cases line)
  from Cons.prems line obtain p ps where
    p: "Purchase_init (strip usr) (strip ctry) amt = Inr p" and
    ps: "parse_purchases lines = Inr ps" and
    eq: "purchases = p # ps"
    by (auto split: sum.splits)
  from Purchase_init_fields [OF p] have "0 \<le> amount p" by simp
  with Cons.IH [OF ps] eq show ?case by simp
qed

text \<open>
  C4, as stated: when no record of the country has a negative amount, the ledger is
  built. A negative amount in a record of another country raises as well, since the
  constructor checks every record before any is aggregated.
\<close>

theorem totals_of_lines_counterexample:
  "strip ''FR'' \<noteq> ''UK''
   \<and> totals_of_lines [(''alice'', ''UK'', 10::real), (''carla'', ''FR'', - 1)] ''UK''
       = Inl (ValueError ''amount must be non-negative'')"
  by (simp add: totals_of_lines_def Purchase_init_def strip_eval)

text \<open>
  C4, amended. Parsing and aggregating raises, and gives no ledger, exactly when some
  record, of the country or not, has a blank user or a negative amount; so it raises,
  with a \<^verbatim>\<open>ValueError\<close>, whenever a record of the country has a negative amount. What
  is raised is one of the two errors of the constructor. When every record is
  accepted the result is the ledger \<^verbatim>\<open>total_spend_by_user\<close> computes, which raises
  nothing itself.
\<close>

theorem totals_of_lines_validation:
  "(isl (totals_of_lines lines ctry) \<longleftrightarrow>
      (\<exists>(usr, c, amt) \<in> set lines. strip usr = [] \<or> amt < 0))
   \<and> ((\<exists>(usr, c, amt) \<in> set lines. strip c = ctry \<and> amt < 0) \<longrightarrow>
        (\<exists>msg. totals_of_lines lines ctry = Inl (ValueError msg)))
   \<and> (\<forall>e. totals_of_lines lines ctry = Inl e \<longrightarrow>
        e = ValueError ''user must be non-empty'' \<or> e = ValueError ''amount must be non-negative'')
   \<and> (\<forall>purchases. parse_purchases lines = Inr purchases \<longrightarrow>
        totals_of_lines lines ctry = Inr (total_spend_by_user purchases ctry))"
proof -
  have fails: "isl (totals_of_lines lines ctry) \<longleftrightarrow> isl (parse_purchases lines)"
    by (simp add: totals_of_lines_def split: sum.splits)
  have iff: "isl (totals_of_lines lines ctry) \<longleftrightarrow>
      (\<exists>(usr, c, amt) \<in> set lines. strip usr = [] \<or> amt < 0)"
    unfolding fails by (rule parse_purchases_fails_iff)
  have err: "e = ValueError ''user must be non-empty'' \<or> e = ValueError ''amount must be non-negative''"
    if "totals_of_lines lines ctry = Inl e" for e
  proof -
    from that have "parse_purchases lines = Inl e"
      by (simp add: totals_of_lines_def split: sum.splits)
    then show ?thesis by (rule parse_purchases_error)
  qed
  have neg: "\<exists>msg. totals_of_lines lines ctry = Inl (ValueError msg)"
    if "\<exists>(usr, c, amt) \<in> set lines. strip c = ctry \<and> amt < 0"
  proof -
    from that have "\<exists>(usr, c, amt) \<in> set lines. strip usr = [] \<or> amt < 0"
      by fastforce
    with iff obtain e where e: "totals_of_lines lines ctry = Inl e"
      by (cases "totals_of_lines lines ctry") auto
    from err [OF e] e show ?thesis by auto
  qed
  have ok: "totals_of_lines lines ctry = Inr (total_spend_by_user purchases ctry)"
    if "parse_purchases lines = Inr purchases" for purchases
    using that by (simp add: totals_of_lines_def)
  from iff neg err ok show ?thesis by blast
qed

text \<open>
  A negative amount for \<^verbatim>\<open>"UK"\<close>; a user that is the no-break space \<^verbatim>\<open>U+00A0\<close> alone;
  three accepted lines, one with the country \<^verbatim>\<open>"UK"\<close> followed by \<^verbatim>\<open>U+00A0\<close>.
\<close>

theorem totals_of_lines_validation_witness:
  "totals_of_lines [(''alice'', ''UK'', 10::real), (''bob'', ''UK'', - 1)] ''UK''
     = Inl (ValueError ''amount must be non-negative'')
   \<and> (\<exists>msg. totals_of_lines [(''alice'', ''UK'', 10::real), (''bob'', ''UK'', - 1)] ''UK''
         = Inl (ValueError msg))
   \<and> totals_of_lines [([CHR 0xC2, CHR 0xA0], ''UK'', 1::real)] ''UK''
       = Inl (ValueError ''user must be non-empty'')
   \<and> isl (totals_of_lines [([CHR 0xC2, CHR 0xA0], ''UK'', 1::real)] ''UK'')
   \<and> totals_of_lines
        [(''alice'', ''UK'', 10::real), (''bob'', ''FR'', 5),
         ('' alice'', [CHR ''U'', CHR ''K'', CHR 0xC2, CHR 0xA0], 2)] ''UK''
       = Inr [(''alice'', 12)]"
proof -
  have uk: "strip ''UK'' = ''UK''"
    by (simp add: strip_eval)
  have nbsp: "strip [CHR 0xC2, CHR 0xA0] = []"
    by (simp add: strip_eval)
  have neg: "totals_of_lines [(''alice'', ''UK'', 10::real), (''bob'', ''UK'', - 1)] ''UK''
      = Inl (ValueError ''amount must be non-negative'')"
    by (simp add: totals_of_lines_def Purchase_init_def strip_eval)
  have blank: "totals_of_lines [([CHR 0xC2, CHR 0xA0], ''UK'', 1::real)] ''UK''
      = Inl (ValueError ''user must be non-empty'')"
    by (simp add: totals_of_lines_def Purchase_init_def strip_eval)
  have ok: "totals_of_lines
        [(''alice'', ''UK'', 10::real), (''bob'', ''FR'', 5),
         ('' alice'', [CHR ''U'', CHR ''K'', CHR 0xC2, CHR 0xA0], 2)] ''UK''
       = Inr [(''alice'', 12)]"
    by (simp add: totals_of_lines_def Purchase_init_def strip_eval
        total_spend_by_user_def spend_step_def is_in_country_def)
  have msg: "\<exists>msg. totals_of_lines [(''alice'', ''UK'', 10::real), (''bob'', ''UK'', - 1)] ''UK''
         = Inl (ValueError msg)"
    using totals_of_lines_validation
      [of "[(''alice'', ''UK'', 10::real), (''bob'', ''UK'', - 1)]" "''UK''"] uk
    by simp
  have fails: "isl (totals_of_lines [([CHR 0xC2, CHR 0xA0], ''UK'', 1::real)] ''UK'')"
    using totals_of_lines_validation [of "[([CHR 0xC2, CHR 0xA0], ''UK'', 1::real)]" "''UK''"] nbsp
    by simp
  from neg msg blank fails ok show ?thesis by blast
qed

section \<open>Stored values and the guards\<close>

lemma set_dict_set: "set (dict_set d k v) \<subseteq> insert (k, v) (set d)"
  by (induction d) (auto split: if_splits)

lemma dict_get_nonneg:
  fixes d :: "('k, 'v::linordered_idom) dict"
  shows "\<forall>(key, value) \<in> set d. 0 \<le> value \<Longrightarrow> 0 \<le> dict_get d k 0"
  by (induction d) auto

lemma add_keeps_nonneg:
  assumes "\<forall>(key, value) \<in> set (words self). 0 \<le> value"
  shows "\<forall>(key, value) \<in> set (words (snd (add self item n))). 0 \<le> value"
proof (cases "n < 1")
  case True
  with assms show ?thesis by (simp add: add_def)
next
  case False
  from assms have "0 \<le> dict_get (words self) item 0" by (rule dict_get_nonneg)
  with False have "0 \<le> dict_get (words self) item 0 + n" by simp
  with assms set_dict_set [of "words self" item "dict_get (words self) item 0 + n"] False
  show ?thesis by (auto simp: add_def)
qed

lemma add_each_keeps_nonneg:
  "\<forall>(key, value) \<in> set (words self). 0 \<le> value \<Longrightarrow>
   \<forall>(key, value) \<in> set (words (add_each self calls)). 0 \<le> value"
proof (induction calls arbitrary: self)
  case Nil
  then show ?case by simp
next
  case (Cons call calls)
  obtain item n where call: "call = (item, n)" by (cases call)
  from Cons.prems have "\<forall>(key, value) \<in> set (words (snd (add self item n))). 0 \<le> value"
    by (rule add_keeps_nonneg)
  then show ?case unfolding call add_each.simps by (rule Cons.IH)
qed

lemma count_add_mono: "count self key \<le> count (snd (add self item n)) key"
  by (simp add: count_add)

lemma apply_fee_mono:
  fixes p :: "real Purchase"
  shows "amount p \<le> amount (snd (apply_fee p fee))"
  by (simp add: apply_fee_def)

lemma apply_fees_at_nonneg:
  fixes purchases :: "real Purchase list"
  shows "\<forall>p \<in> set purchases. 0 \<le> amount p \<Longrightarrow>
   \<forall>p \<in> set (apply_fees_at purchases fees). 0 \<le> amount p"
proof (induction fees arbitrary: purchases)
  case Nil
  then show ?case by simp
next
  case (Cons adj fees)
  obtain i fee where adj: "adj = (i, fee)" by (cases adj)
  let ?next = "if i < length purchases
        then purchases[i := snd (apply_fee (purchases ! i) fee)] else purchases"
  have "\<forall>p \<in> set ?next. 0 \<le> amount p"
  proof (cases "i < length purchases")
    case True
    then have "0 \<le> amount (purchases ! i)" using Cons.prems by simp
    with apply_fee_mono [of "purchases ! i" fee]
    have "0 \<le> amount (snd (apply_fee (purchases ! i) fee))" by simp
    with Cons.prems True show ?thesis
      using set_update_subset_insert [of purchases i "snd (apply_fee (purchases ! i) fee)"]
      by auto
  next
    case False
    with Cons.prems show ?thesis by simp
  qed
  then have "\<forall>p \<in> set (apply_fees_at ?next fees). 0 \<le> amount p"
    by (rule Cons.IH)
  then show ?case by (simp add: adj)
qed

lemma spend_step_mono:
  fixes purchase :: "real Purchase"
  shows "0 \<le> amount purchase \<Longrightarrow>
   dict_get totals key 0 \<le> dict_get (spend_step ctry totals purchase) key 0"
  by (simp add: spend_step_def dict_get_set)

lemma spend_step_nonneg:
  fixes purchase :: "real Purchase"
  assumes "\<forall>(key, total) \<in> set totals. 0 \<le> total" and "0 \<le> amount purchase"
  shows "\<forall>(key, total) \<in> set (spend_step ctry totals purchase). 0 \<le> total"
proof (cases "is_in_country purchase ctry")
  case True
  from assms(1) have "0 \<le> dict_get totals (user purchase) 0" by (rule dict_get_nonneg)
  with assms(2) have "0 \<le> dict_get totals (user purchase) 0 + amount purchase" by simp
  with assms(1) True
    set_dict_set [of totals "user purchase" "dict_get totals (user purchase) 0 + amount purchase"]
  show ?thesis by (auto simp: spend_step_def)
next
  case False
  with assms(1) show ?thesis by (simp add: spend_step_def)
qed

lemma spend_loop_nonneg:
  fixes purchases :: "real Purchase list"
  shows "\<forall>(key, total) \<in> set totals. 0 \<le> total \<Longrightarrow> \<forall>p \<in> set purchases. 0 \<le> amount p \<Longrightarrow>
   \<forall>(key, total) \<in> set (spend_loop ctry totals purchases). 0 \<le> total"
proof (induction purchases arbitrary: totals)
  case Nil
  then show ?case by simp
next
  case (Cons p purchases)
  from Cons.prems have "\<forall>(key, total) \<in> set (spend_step ctry totals p). 0 \<le> total"
    by (intro spend_step_nonneg) simp_all
  moreover from Cons.prems have "\<forall>p \<in> set purchases. 0 \<le> amount p" by simp
  ultimately show ?case unfolding spend_loop.simps by (rule Cons.IH)
qed

text \<open>
  Where every amount and every fee is a number: every count of a counter reached from
  the empty one by \<^verbatim>\<open>add\<close> calls, failed ones included, is non-negative, and no \<^verbatim>\<open>add\<close>
  lowers the count of any key. A purchase the constructor accepts has a non-negative
  amount, and no \<^verbatim>\<open>apply_fee\<close> lowers an amount. Parsed purchases keep non-negative
  amounts under any \<^verbatim>\<open>apply_fee\<close> calls, every total aggregated from them is
  non-negative, and a step of the aggregation lowers the total of no user.
\<close>

lemma number_values_nonnegative_nondecreasing:
  fixes p q purchase :: "real Purchase" and purchases :: "real Purchase list"
  shows "(\<forall>(key, value) \<in> set (words (add_each Counter_init calls)). 0 \<le> value)
   \<and> count self key \<le> count (snd (add self item n)) key
   \<and> (Purchase_init usr c amt = Inr p \<longrightarrow> 0 \<le> amount p)
   \<and> amount q \<le> amount (snd (apply_fee q fee))
   \<and> (parse_purchases lines = Inr purchases \<longrightarrow>
        (\<forall>p \<in> set (apply_fees_at purchases fees). 0 \<le> amount p)
        \<and> (\<forall>(key, total) \<in> set (total_spend_by_user (apply_fees_at purchases fees) ctry).
              0 \<le> total))
   \<and> (0 \<le> amount purchase \<longrightarrow>
        dict_get totals name 0 \<le> dict_get (spend_step ctry totals purchase) name 0)"
proof -
  have counter: "\<forall>(key, value) \<in> set (words (add_each Counter_init calls)). 0 \<le> value"
    by (rule add_each_keeps_nonneg) (simp add: Counter_init_def)
  have init: "0 \<le> amount p" if "Purchase_init usr c amt = Inr p"
    using Purchase_init_fields [OF that] by simp
  have ledger: "(\<forall>p \<in> set (apply_fees_at purchases fees). 0 \<le> amount p)
        \<and> (\<forall>(key, total) \<in> set (total_spend_by_user (apply_fees_at purchases fees) ctry).
              0 \<le> total)"
    if "parse_purchases lines = Inr purchases"
  proof -
    from that have "\<forall>p \<in> set purchases. 0 \<le> amount p"
      by (rule parse_purchases_nonneg)
    then have adjusted: "\<forall>p \<in> set (apply_fees_at purchases fees). 0 \<le> amount p"
      by (rule apply_fees_at_nonneg)
    have "\<forall>(key, total) \<in> set (spend_loop ctry [] (apply_fees_at purchases fees)). 0 \<le> total"
      by (rule spend_loop_nonneg) (simp, rule adjusted)
    with adjusted show ?thesis by (simp add: total_spend_by_user_def)
  qed
  from counter count_add_mono [of self key item n] init apply_fee_mono [of q fee] ledger
    spend_step_mono [of purchase totals name ctry]
  show ?thesis by blast
qed

text \<open>
  C6. Every stored value is non-negative and no operation lowers one. The guards of
  the constructor and of \<^verbatim>\<open>apply_fee\<close> are \<^verbatim>\<open>amount < 0\<close> and \<^verbatim>\<open>fee < 0\<close>, which are
  false for NaN: the line \<^verbatim>\<open>alice,UK,nan\<close> is parsed into a purchase with the amount NaN,
  its total for \<^verbatim>\<open>"UK"\<close> is NaN, and \<^verbatim>\<open>0 <= nan\<close> is false; the fee NaN is accepted on a
  purchase of 5 and leaves the amount NaN, and \<^verbatim>\<open>5 <= nan\<close> is false.
\<close>

theorem nan_passes_the_guards:
  "parse_purchases [(''alice'', ''UK'', NaN)]
     = Inr [\<lparr>user = ''alice'', country = ''UK'', amount = NaN\<rparr>]
   \<and> total_spend_by_user [\<lparr>user = ''alice'', country = ''UK'', amount = NaN\<rparr>] ''UK''
       = [(''alice'', NaN)]
   \<and> (0 \<le> NaN) = False
   \<and> apply_fee \<lparr>user = ''bob'', country = ''UK'', amount = Finite 5\<rparr> NaN
       = (Inr (), \<lparr>user = ''bob'', country = ''UK'', amount = NaN\<rparr>)
   \<and> (Finite 5 \<le> NaN) = False"
  by (simp add: Purchase_init_def strip_eval total_spend_by_user_def spend_step_def
      is_in_country_def apply_fee_def zero_pyfloat_def less_eq_pyfloat_def)

section \<open>Fees\<close>

lemma spend_step_keys:
  "map fst (spend_step ctry totals p) =
     (if country p = ctry \<and> user p \<notin> set (map fst totals)
      then map fst totals @ [user p] else map fst totals)"
  by (simp add: spend_step_def is_in_country_def map_fst_dict_set)

lemma spend_loop_keys:
  "map fst totals = map fst totals' \<Longrightarrow>
   map user ps = map user ps' \<Longrightarrow> map country ps = map country ps' \<Longrightarrow>
   map fst (spend_loop ctry totals ps) = map fst (spend_loop ctry totals' ps')"
proof (induction ps arbitrary: ps' totals totals')
  case Nil
  then show ?case by simp
next
  case (Cons p ps)
  from Cons.prems obtain p' rest where ps': "ps' = p' # rest"
    by (cases ps') auto
  with Cons.prems have same: "user p' = user p" "country p' = country p"
    and rest: "map user ps = map user rest" "map country ps = map country rest"
    by simp_all
  from same Cons.prems(1)
  have "map fst (spend_step ctry totals p) = map fst (spend_step ctry totals' p')"
    by (simp only: spend_step_keys)
  from Cons.IH [OF this rest] show ?case by (simp add: ps')
qed

lemma apply_fee_keeps_keys:
  assumes "i < length purchases"
  shows "map fst (total_spend_by_user (purchases[i := snd (apply_fee (purchases ! i) fee)]) ctry)
       = map fst (total_spend_by_user purchases ctry)"
proof -
  let ?q = "snd (apply_fee (purchases ! i) fee)"
  have q: "user ?q = user (purchases ! i)" "country ?q = country (purchases ! i)"
    by (simp_all add: apply_fee_def)
  have "map user (purchases[i := ?q]) = (map user purchases)[i := user (purchases ! i)]"
    by (simp only: map_update q)
  also have "\<dots> = map user purchases"
    using assms by (metis list_update_id map_update)
  finally have users: "map user (purchases[i := ?q]) = map user purchases" .
  have "map country (purchases[i := ?q]) = (map country purchases)[i := country (purchases ! i)]"
    by (simp only: map_update q)
  also have "\<dots> = map country purchases"
    using assms by (metis list_update_id map_update)
  finally have countries: "map country (purchases[i := ?q]) = map country purchases" .
  show ?thesis
    unfolding total_spend_by_user_def
    by (rule spend_loop_keys [OF refl users countries])
qed

text \<open>
  C7, as stated: the adjustment fails when the key is absent. \<^verbatim>\<open>apply_fee\<close> takes no
  key: carla bought in \<^verbatim>\<open>"FR"\<close>, so the ledger for \<^verbatim>\<open>"UK"\<close> has no entry for her, and
  the fee on her purchase is added all the same.
\<close>

theorem apply_fee_absent_key_counterexample:
  "Purchase_init ''carla'' ''FR'' (100::real)
     = Inr \<lparr>user = ''carla'', country = ''FR'', amount = 100\<rparr>
   \<and> total_spend_by_user [\<lparr>user = ''carla'', country = ''FR'', amount = 100::real\<rparr>] ''UK'' = []
   \<and> apply_fee \<lparr>user = ''carla'', country = ''FR'', amount = 100::real\<rparr> 0.25
       = (Inr (), \<lparr>user = ''carla'', country = ''FR'', amount = 100.25\<rparr>)"
  by (simp add: Purchase_init_def strip_eval total_spend_by_user_def spend_step_def
      is_in_country_def apply_fee_def)

text \<open>
  C7, amended. \<^verbatim>\<open>apply_fee\<close> adds a non-negative fee to the amount of the purchase it
  is called on, and raises \<^verbatim>\<open>ValueError\<close>, leaving the purchase as it was, exactly when
  the fee is negative. It looks no key up: a fee added to a purchase of the list
  leaves the keys of the aggregated ledger as they were, creating none, and the only
  failure for something absent is the \<^verbatim>\<open>IndexError\<close> of \<^verbatim>\<open>purchases[0]\<close> on an empty list.
\<close>

theorem apply_fee_adds_or_rejects:
  "(0 \<le> fee \<longrightarrow> apply_fee p fee = (Inr (), p\<lparr>amount := amount p + fee\<rparr>))
   \<and> (fee < 0 \<longrightarrow> apply_fee p fee = (Inl (ValueError ''fee must be non-negative''), p))
   \<and> (i < length purchases \<longrightarrow>
        map fst (total_spend_by_user (purchases[i := snd (apply_fee (purchases ! i) fee)]) ctry)
          = map fst (total_spend_by_user purchases ctry))
   \<and> leaders_of [] fee ctry limit = Inl (IndexError ''list index out of range'')"
proof -
  have "leaders_of [] fee ctry limit = Inl (IndexError ''list index out of range'')"
    by (simp add: leaders_of_def)
  moreover have "0 \<le> fee \<longrightarrow> apply_fee p fee = (Inr (), p\<lparr>amount := amount p + fee\<rparr>)"
    by (simp add: apply_fee_def)
  moreover have "fee < 0 \<longrightarrow> apply_fee p fee = (Inl (ValueError ''fee must be non-negative''), p)"
    by (simp add: apply_fee_def)
  ultimately show ?thesis
    using apply_fee_keeps_keys [of i purchases fee ctry] by blast
qed

theorem apply_fee_adds_or_rejects_witness:
  "apply_fee \<lparr>user = ''alice'', country = ''UK'', amount = 10::real\<rparr> 0.25
     = (Inr (), \<lparr>user = ''alice'', country = ''UK'', amount = 10.25\<rparr>)
   \<and> apply_fee \<lparr>user = ''alice'', country = ''UK'', amount = 10::real\<rparr> (- 1)
     = (Inl (ValueError ''fee must be non-negative''),
        \<lparr>user = ''alice'', country = ''UK'', amount = 10\<rparr>)
   \<and> map fst (total_spend_by_user
        ([\<lparr>user = ''carla'', country = ''FR'', amount = 100::real\<rparr>]
           [0 := snd (apply_fee ([\<lparr>user = ''carla'', country = ''FR'', amount = 100\<rparr>] ! 0) 0.25)])
        ''UK'') = []"
  using apply_fee_adds_or_rejects
      [where fee = "0.25::real" and p = "\<lparr>user = ''alice'', country = ''UK'', amount = 10\<rparr>"
         and i = 0 and purchases = "[\<lparr>user = ''carla'', country = ''FR'', amount = 100\<rparr>]"
         and ctry = "''UK''"]
    apply_fee_adds_or_rejects
      [where fee = "- 1 :: real" and p = "\<lparr>user = ''alice'', country = ''UK'', amount = 10\<rparr>"]
  by (simp add: total_spend_by_user_def spend_step_def is_in_country_def)

end
